theory Spec2Isabelle
  imports Main
begin

section \<open>addcache: an in-memory key-value cache with expiry and hooks\<close>

text \<open>
  The Go package \<^verbatim>\<open>addcache\<close> keeps a map from string keys to entries, a registry of
  handler functions per operation kind, and a goroutine that sweeps expired entries.
  Every method of \<^verbatim>\<open>*storage\<close> is embedded as a function that takes the store and returns
  the store it leaves behind. Conventions of the embedding:

  \<^item> \<^verbatim>\<open>time.Now()\<close> is an argument \<open>now\<close> of every method that reads the clock.
  \<^item> The payload type \<^verbatim>\<open>any\<close> is a type variable \<open>'v\<close>.
  \<^item> A handler is a function of the key, the payload and the world outside the cache
    (type variable \<open>'w\<close>); the store carries that world, so that a call of a handler is
    visible. Handlers that call back into the cache are outside this model.
  \<^item> Each embedded method is one uninterrupted call. In the source only the sweep takes
    \<^verbatim>\<open>s.mu\<close>; \<^verbatim>\<open>Set\<close>, \<^verbatim>\<open>SetEx\<close>, \<^verbatim>\<open>Get\<close> and \<^verbatim>\<open>Delete\<close> take no lock, so a call can run
    between two steps of another call or of a pass of the sweep. \<^verbatim>\<open>removeIfExpired\<close> takes
    the copy of the entry it tests as an argument, as in the source, and with it such a
    schedule is written down step by step.
\<close>

subsection \<open>Go's time package\<close>

text \<open>
  A \<^verbatim>\<open>time.Time\<close> is read through its wall clock only (\<^verbatim>\<open>Unix()\<close> ignores the monotonic
  reading): an instant is a count of nanoseconds since the Unix epoch. A
  \<^verbatim>\<open>time.Duration\<close> is a count of nanoseconds. \<^verbatim>\<open>t.Add(d)\<close> is the instant \<open>d\<close> later and
  \<^verbatim>\<open>t.Unix()\<close> the number of whole seconds since the epoch, rounded down.
\<close>

type_synonym Time = int
type_synonym Duration = int

definition Second :: Duration where
  "Second = 1000000000"

definition Add :: "Time \<Rightarrow> Duration \<Rightarrow> Time" where
  "Add t d = t + d"

definition Unix :: "Time \<Rightarrow> int" where
  "Unix t = t div 1000000000"

subsection \<open>Constants and types of the package\<close>

definition defaultDelimiter :: string where
  "defaultDelimiter = '':''"

definition defaultCleanup :: Duration where
  "defaultCleanup = 30 * Second"

datatype error = ErrCacheKeyNotFound

text \<open>\<^verbatim>\<open>type OperationType string\<close>: any string can be used as a kind.\<close>

type_synonym OperationType = string

definition DeleteOperation :: OperationType where
  "DeleteOperation = ''Delete''"

definition CreateOperation :: OperationType where
  "CreateOperation = ''Create''"

type_synonym ('v, 'w) HandlerFunc = "string \<Rightarrow> 'v \<Rightarrow> 'w \<Rightarrow> 'w"

record 'v storageData =
  isPersistence :: bool
  setTime :: Time
  expireDuration :: Duration
  data :: 'v

text \<open>
  The goroutine that runs \<^verbatim>\<open>cleanupLoop\<close> either still loops (it waits in its
  \<^verbatim>\<open>select\<close> or sweeps) or has returned.
\<close>

datatype sweeper_state = Looping | Returned

text \<open>
  \<^verbatim>\<open>storage\<close>: field \<open>sdata\<close> is \<^verbatim>\<open>s.data\<close>, \<open>hooks\<close> is \<^verbatim>\<open>s.hooks\<close>. The unbuffered
  channel \<^verbatim>\<open>s.stop\<close> has one receiver, the sweeping goroutine, whose state is \<open>sweeper\<close>.
  \<open>world\<close> is what the handlers act on.
\<close>

record ('v, 'w) storage =
  sdata :: "string \<rightharpoonup> 'v storageData"
  hooks :: "OperationType \<rightharpoonup> ('v, 'w) HandlerFunc list"
  sweeper :: sweeper_state
  world :: 'w

subsection \<open>Construction\<close>

text \<open>
  The interval sets the pace of the ticker only; the ticks reach \<^verbatim>\<open>cleanupLoop\<close> from
  outside. \<^verbatim>\<open>time.NewTicker\<close> panics for an interval that is not positive: this is the
  cache made with a positive interval, such as the 30 seconds of \<^verbatim>\<open>NewCache\<close>.
\<close>

definition NewCacheWithCleanup :: "Duration \<Rightarrow> 'w \<Rightarrow> ('v, 'w) storage" where
  "NewCacheWithCleanup cleanupInterval w =
     \<lparr>sdata = Map.empty, hooks = Map.empty, sweeper = Looping, world = w\<rparr>"

definition NewCache :: "'w \<Rightarrow> ('v, 'w) storage" where
  "NewCache w = NewCacheWithCleanup defaultCleanup w"

subsection \<open>Hooks\<close>

text \<open>
  \<^verbatim>\<open>processHooks\<close> calls the handlers stored for the kind, first to last.
\<close>

definition processHooks ::
  "OperationType \<Rightarrow> string \<Rightarrow> 'v \<Rightarrow> ('v, 'w) storage \<Rightarrow> ('v, 'w) storage" where
  "processHooks operationType key d s =
     (case hooks s operationType of
        Some handlerFunctions \<Rightarrow>
          s\<lparr>world := fold (\<lambda>handlerFunction. handlerFunction key d) handlerFunctions (world s)\<rparr>
      | None \<Rightarrow> s)"

text \<open>
  \<^verbatim>\<open>SetHook\<close>: when the kind has an entry in \<^verbatim>\<open>s.hooks\<close>, the loop appends each new
  handler to the local slice \<^verbatim>\<open>handlers\<close>, and the method ends without storing that
  slice in the map; the slice header in the map keeps its length. When the kind has no
  entry, the given handlers become its entry.
\<close>

definition SetHook ::
  "OperationType \<Rightarrow> ('v, 'w) HandlerFunc list \<Rightarrow> ('v, 'w) storage \<Rightarrow> ('v, 'w) storage" where
  "SetHook operationType handlerFunctions s =
     (case hooks s operationType of
        Some handlers \<Rightarrow>
          (let handlers' = fold (\<lambda>handlerFunction hs. hs @ [handlerFunction])
                             handlerFunctions handlers
           in s)
      | None \<Rightarrow> s\<lparr>hooks := (hooks s)(operationType \<mapsto> handlerFunctions)\<rparr>)"

subsection \<open>Writing, deleting and reading\<close>

definition Set :: "string \<Rightarrow> 'v \<Rightarrow> Time \<Rightarrow> ('v, 'w) storage \<Rightarrow> ('v, 'w) storage" where
  "Set key d now s =
     processHooks CreateOperation key d
       (s\<lparr>sdata := (sdata s)(key \<mapsto>
            \<lparr>isPersistence = True, setTime = now, expireDuration = 0, data = d\<rparr>)\<rparr>)"

definition SetEx ::
  "string \<Rightarrow> 'v \<Rightarrow> Duration \<Rightarrow> Time \<Rightarrow> ('v, 'w) storage \<Rightarrow> ('v, 'w) storage" where
  "SetEx key d duration now s =
     processHooks CreateOperation key d
       (s\<lparr>sdata := (sdata s)(key \<mapsto>
            \<lparr>isPersistence = False, setTime = now, expireDuration = duration, data = d\<rparr>)\<rparr>)"

definition Delete :: "string \<Rightarrow> ('v, 'w) storage \<Rightarrow> ('v, 'w) storage" where
  "Delete key s =
     (case sdata s key of
        Some sd \<Rightarrow> processHooks DeleteOperation key (data sd) (s\<lparr>sdata := (sdata s)(key := None)\<rparr>)
      | None \<Rightarrow> s)"

definition removeIfExpired ::
  "string \<Rightarrow> 'v storageData \<Rightarrow> Time \<Rightarrow> ('v, 'w) storage \<Rightarrow> bool \<times> ('v, 'w) storage" where
  "removeIfExpired key sd now s =
     (if isPersistence sd then (False, s)
      else if Unix (Add (setTime sd) (expireDuration sd)) \<le> Unix now then (True, Delete key s)
      else (False, s))"

text \<open>
  \<^verbatim>\<open>Get\<close> returns \<^verbatim>\<open>(value.data, nil)\<close> or \<^verbatim>\<open>(nil, ErrCacheKeyNotFound)\<close>: a sum, with the
  store it leaves.
\<close>

definition Get :: "string \<Rightarrow> Time \<Rightarrow> ('v, 'w) storage \<Rightarrow> (error + 'v) \<times> ('v, 'w) storage" where
  "Get key now s =
     (case sdata s key of
        Some v \<Rightarrow>
          (case removeIfExpired key v now s of
             (True, s') \<Rightarrow> (Inl ErrCacheKeyNotFound, s')
           | (False, s') \<Rightarrow> (Inr (data v), s'))
      | None \<Rightarrow> (Inl ErrCacheKeyNotFound, s))"

subsection \<open>Keys\<close>

text \<open>
  Go's \<^verbatim>\<open>strings.Join(elems, sep)\<close> (standard library): the empty string for no
  element, the element itself for one, and otherwise a builder that writes the first
  element and then, for each further element, the separator and the element.
\<close>

fun Join :: "string list \<Rightarrow> string \<Rightarrow> string" where
  "Join [] sep = []"
| "Join [e] sep = e"
| "Join (e # es) sep = fold (\<lambda>s b. b @ sep @ s) es e"

text \<open>
  Both key helpers are methods of the store; they return the key and leave the store.
\<close>

definition CreateKeyWithDelimiter ::
  "string \<Rightarrow> string list \<Rightarrow> ('v, 'w) storage \<Rightarrow> string \<times> ('v, 'w) storage" where
  "CreateKeyWithDelimiter delimiter args s = (Join args delimiter, s)"

definition CreateKey :: "string list \<Rightarrow> ('v, 'w) storage \<Rightarrow> string \<times> ('v, 'w) storage" where
  "CreateKey args s = CreateKeyWithDelimiter defaultDelimiter args s"

text \<open>
  The specification's wording, "the parts joined with the delimiter": the parts in
  order, with the delimiter between each two neighbours.
\<close>

fun joined_with :: "string \<Rightarrow> string list \<Rightarrow> string" where
  "joined_with delim [] = []"
| "joined_with delim [p] = p"
| "joined_with delim (p # q # ps) = p @ delim @ joined_with delim (q # ps)"

subsection \<open>The sweep and its goroutine\<close>

text \<open>
  One pass of \<^verbatim>\<open>for key, sd := range s.data { s.removeIfExpired(key, sd) }\<close>. Go fixes
  no order for the keys a \<^verbatim>\<open>range\<close> over a map produces, and every call of
  \<^verbatim>\<open>removeIfExpired\<close> reads the clock: the pass is given the keys in the order the
  \<^verbatim>\<open>range\<close> reaches them, each with the clock reading of its call. A key that is no
  longer in the map when it is reached is not produced. A pass of the program visits
  every key of the map once; the properties below hold for every list of visits. This is
  the pass with no call of another goroutine between its steps: each copy \<open>sd\<close> is the
  entry of the store the step acts on.
\<close>

fun sweep :: "(string \<times> Time) list \<Rightarrow> ('v, 'w) storage \<Rightarrow> ('v, 'w) storage" where
  "sweep [] s = s"
| "sweep ((key, now) # rest) s =
     (case sdata s key of
        Some sd \<Rightarrow> sweep rest (snd (removeIfExpired key sd now s))
      | None \<Rightarrow> sweep rest s)"

text \<open>
  \<^verbatim>\<open>cleanupLoop\<close> is \<^verbatim>\<open>for { select { case <-s.stop: return; case <-t.C: ... } }\<close>. What its
  \<^verbatim>\<open>select\<close> receives comes from outside: a value from \<^verbatim>\<open>s.stop\<close>, or a tick of the ticker,
  which runs one pass (given with its visits). The loop is run on the list of what it
  receives, in order: on \<^verbatim>\<open>s.stop\<close> the goroutine returns and takes no more, and at the end
  of the list it waits in its \<^verbatim>\<open>select\<close>. The list can be handed over piece by piece, since
  \<open>sweeper\<close> records whether the goroutine still loops.
\<close>

datatype selected = FromStop | FromTicker "(string \<times> Time) list"

definition cleanupRound :: "selected \<Rightarrow> ('v, 'w) storage \<Rightarrow> ('v, 'w) storage" where
  "cleanupRound ev s =
     (case ev of
        FromStop \<Rightarrow> s\<lparr>sweeper := Returned\<rparr>
      | FromTicker visits \<Rightarrow> sweep visits s)"

fun cleanupLoop :: "selected list \<Rightarrow> ('v, 'w) storage \<Rightarrow> ('v, 'w) storage" where
  "cleanupLoop [] s = s"
| "cleanupLoop (ev # evs) s =
     (case sweeper s of
        Returned \<Rightarrow> s
      | Looping \<Rightarrow> cleanupLoop evs (cleanupRound ev s))"

text \<open>
  \<^verbatim>\<open>StopCleanup\<close> sends on the unbuffered channel \<^verbatim>\<open>s.stop\<close>. The send completes when
  a receiver takes the value; the only receive is the \<^verbatim>\<open>select\<close> of \<^verbatim>\<open>cleanupLoop\<close>.
  With the goroutine looping the call returns, and the goroutine has returned by then.
  With the goroutine gone nothing ever receives: the call never returns, which is the
  result \<open>None\<close>.
\<close>

definition StopCleanup :: "('v, 'w) storage \<Rightarrow> ('v, 'w) storage option" where
  "StopCleanup s =
     (case sweeper s of
        Looping \<Rightarrow> Some (cleanupLoop [FromStop] s)
      | Returned \<Rightarrow> None)"

text \<open>
  A handler for the examples: it appends its number, the key and the payload to a log.
\<close>

definition logger :: "nat \<Rightarrow> ('v, (nat \<times> string \<times> 'v) list) HandlerFunc" where
  "logger i key d w = w @ [(i, key, d)]"

text \<open>
  A store for the examples: one handler per kind, a persistent entry \<open>p\<close> and an entry
  \<open>e\<close> written at instant 0 with one second to live.
\<close>

definition example_store :: "(nat, (nat \<times> string \<times> nat) list) storage" where
  "example_store =
     SetEx ''e'' 5 Second 0 (Set ''p'' 7 0
       (SetHook DeleteOperation [logger 1] (SetHook CreateOperation [logger 2] (NewCache []))))"

section \<open>Properties\<close>

text \<open>The equations that evaluate the model on a concrete store.\<close>

lemmas evaluate =
  NewCache_def NewCacheWithCleanup_def SetHook_def Set_def SetEx_def processHooks_def
  DeleteOperation_def CreateOperation_def Unix_def Add_def Second_def logger_def

subsection \<open>What the hooks and the writes leave alone\<close>

lemma sdata_processHooks: "sdata (processHooks op key d s) = sdata s"
  by (simp add: processHooks_def split: option.split)

lemma hooks_processHooks: "hooks (processHooks op key d s) = hooks s"
  by (simp add: processHooks_def split: option.split)

lemma sweeper_processHooks: "sweeper (processHooks op key d s) = sweeper s"
  by (simp add: processHooks_def split: option.split)

lemma world_processHooks:
  "world (processHooks op key d s) =
     (case hooks s op of Some hs \<Rightarrow> fold (\<lambda>h. h key d) hs (world s) | None \<Rightarrow> world s)"
  by (simp add: processHooks_def split: option.split)

lemma sdata_Set:
  "sdata (Set key d now s) =
     (sdata s)(key \<mapsto> \<lparr>isPersistence = True, setTime = now, expireDuration = 0, data = d\<rparr>)"
  by (simp add: Set_def sdata_processHooks)

lemma sdata_SetEx:
  "sdata (SetEx key d duration now s) =
     (sdata s)(key \<mapsto>
       \<lparr>isPersistence = False, setTime = now, expireDuration = duration, data = d\<rparr>)"
  by (simp add: SetEx_def sdata_processHooks)

subsection \<open>Deleting, the expiry test and reading, case by case\<close>

lemma processHooks_eq:
  "processHooks op key d s =
     s\<lparr>world := (case hooks s op of Some hs \<Rightarrow> fold (\<lambda>h. h key d) hs (world s) | None \<Rightarrow> world s)\<rparr>"
  by (simp add: processHooks_def split: option.split)

lemma Delete_absent: "sdata s key = None \<Longrightarrow> Delete key s = s"
  by (simp add: Delete_def)

lemma Delete_present:
  "sdata s key = Some sd \<Longrightarrow>
   Delete key s =
     s\<lparr>sdata := (sdata s)(key := None),
       world := (case hooks s DeleteOperation of
                   Some hs \<Rightarrow> fold (\<lambda>h. h key (data sd)) hs (world s)
                 | None \<Rightarrow> world s)\<rparr>"
  by (simp add: Delete_def processHooks_eq split: option.split)

lemma sdata_Delete: "sdata (Delete key s) = (sdata s)(key := None)"
  by (cases "sdata s key") (auto simp: Delete_absent Delete_present)

lemma fold_logger:
  "fold (\<lambda>h. h key d) (map logger ns) w = w @ map (\<lambda>n. (n, key, d)) ns"
  by (induction ns arbitrary: w) (simp_all add: logger_def)

lemma Unix_mono: "t \<le> t' \<Longrightarrow> Unix t \<le> Unix t'"
  by (simp add: Unix_def zdiv_mono1)

lemma Unix_full_second: "t' + Second \<le> t \<Longrightarrow> Unix t' < Unix t"
proof -
  assume a: "t' + Second \<le> t"
  have "Unix (t' + Second) = Unix t' + 1"
    by (simp add: Unix_def Second_def)
  moreover have "Unix (t' + Second) \<le> Unix t"
    using a by (rule Unix_mono)
  ultimately show ?thesis by simp
qed

lemma Unix_early_bound: "Unix e \<le> Unix t \<Longrightarrow> e - t < Second"
proof -
  assume a: "Unix e \<le> Unix t"
  have "e < (Unix e + 1) * 1000000000"
    unfolding Unix_def
  proof -
    have "e mod 1000000000 < 1000000000" by simp
    moreover have "e = e div 1000000000 * 1000000000 + e mod 1000000000" by simp
    ultimately show "e < (e div 1000000000 + 1) * 1000000000" by (simp add: algebra_simps)
  qed
  moreover have "Unix t * 1000000000 \<le> t"
    unfolding Unix_def by simp
  ultimately show ?thesis using a by (simp add: Second_def algebra_simps)
qed

lemma removeIfExpired_eq:
  "removeIfExpired key sd now s =
     (if \<not> isPersistence sd \<and> Unix (Add (setTime sd) (expireDuration sd)) \<le> Unix now
      then (True, Delete key s) else (False, s))"
  by (simp add: removeIfExpired_def)

lemma Get_absent: "sdata s key = None \<Longrightarrow> Get key now s = (Inl ErrCacheKeyNotFound, s)"
  by (simp add: Get_def)

lemma Get_live:
  "sdata s key = Some sd \<Longrightarrow>
   isPersistence sd \<or> Unix now < Unix (Add (setTime sd) (expireDuration sd)) \<Longrightarrow>
   Get key now s = (Inr (data sd), s)"
  by (auto simp: Get_def removeIfExpired_eq)

lemma Get_expired:
  "sdata s key = Some sd \<Longrightarrow> \<not> isPersistence sd \<Longrightarrow>
   Unix (Add (setTime sd) (expireDuration sd)) \<le> Unix now \<Longrightarrow>
   Get key now s = (Inl ErrCacheKeyNotFound, Delete key s)"
  by (simp add: Get_def removeIfExpired_eq)

subsection \<open>Round trip\<close>

text \<open>
  Claim C4. For every key \<open>k\<close> and value \<open>v\<close>, \<^verbatim>\<open>Set(k, v)\<close> followed immediately by
  \<^verbatim>\<open>Get(k)\<close> returns \<open>v\<close> with no error, whatever the store held before, whatever the
  clock shows at the two calls; the read leaves the store as the write left it.
\<close>

theorem Set_Get_roundtrip:
  "Get k now' (Set k v now s) = (Inr v, Set k v now s)"
  by (simp add: Get_def sdata_Set removeIfExpired_def)

subsection \<open>Reading\<close>

text \<open>
  Claim C2, as stated, fails: the claim promises the value for every entry that is not
  yet expired, and the expiry instant of an entry is \<open>setTime + expireDuration\<close>. An entry
  written at 0.5 s with one second to live is read at 1.4 s, before its expiry instant
  of 1.5 s: \<^verbatim>\<open>Get\<close> returns \<^verbatim>\<open>ErrCacheKeyNotFound\<close>, removes the entry and calls the handler
  stored for \<^verbatim>\<open>Delete\<close>.
\<close>

theorem Get_not_yet_expired_counterexample:
  "sdata (SetEx ''k'' 7 Second 500000000 (SetHook DeleteOperation [logger 1] (NewCache [])))
      ''k''
     = Some \<lparr>isPersistence = False, setTime = 500000000, expireDuration = Second,
              data = 7::nat\<rparr>
 \<and> (1400000000::int) < 500000000 + Second
 \<and> fst (Get ''k'' 1400000000
        (SetEx ''k'' (7::nat) Second 500000000
           (SetHook DeleteOperation [logger 1] (NewCache []))))
     = Inl ErrCacheKeyNotFound
 \<and> sdata (snd (Get ''k'' 1400000000
        (SetEx ''k'' (7::nat) Second 500000000
           (SetHook DeleteOperation [logger 1] (NewCache []))))) ''k''
     = None
 \<and> world (snd (Get ''k'' 1400000000
        (SetEx ''k'' (7::nat) Second 500000000
           (SetHook DeleteOperation [logger 1] (NewCache [])))))
     = [(1, ''k'', 7)]"
  by (simp add: evaluate Get_def removeIfExpired_def Delete_def)

text \<open>
  Claim C2, amended. \<^verbatim>\<open>Get(key)\<close> returns the stored value with no error exactly when the
  key has an entry that is persistent or whose expiry instant \<open>setTime + expireDuration\<close>
  lies in a later whole Unix second than the clock; then it leaves the store as it is.
  That is the case whenever at least one full second is left before the expiry instant.
  When the key is absent it returns \<^verbatim>\<open>ErrCacheKeyNotFound\<close> and leaves the store as it is.
  When the entry is not persistent and the whole Unix second of its expiry instant is
  at or before the whole Unix second of the clock, which is the case once the expiry
  instant has come, it returns \<^verbatim>\<open>ErrCacheKeyNotFound\<close>, removes the entry, and calls the
  handlers stored for \<^verbatim>\<open>Delete\<close>, first to last, each once, with the key and the entry's
  value.
\<close>

theorem Get_found_or_not_found:
  "(sdata s key = None \<longrightarrow> Get key now s = (Inl ErrCacheKeyNotFound, s))
 \<and> (\<forall>sd. sdata s key = Some sd
          \<and> (isPersistence sd \<or> Unix now < Unix (Add (setTime sd) (expireDuration sd)))
        \<longrightarrow> Get key now s = (Inr (data sd), s))
 \<and> (\<forall>sd. sdata s key = Some sd \<and> \<not> isPersistence sd
          \<and> Unix (Add (setTime sd) (expireDuration sd)) \<le> Unix now
        \<longrightarrow> Get key now s =
              (Inl ErrCacheKeyNotFound,
               s\<lparr>sdata := (sdata s)(key := None),
                 world := (case hooks s DeleteOperation of
                             Some hs \<Rightarrow> fold (\<lambda>h. h key (data sd)) hs (world s)
                           | None \<Rightarrow> world s)\<rparr>))
 \<and> ((\<exists>v. fst (Get key now s) = Inr v) \<longleftrightarrow>
      (\<exists>sd. sdata s key = Some sd
          \<and> (isPersistence sd \<or> Unix now < Unix (Add (setTime sd) (expireDuration sd)))))
 \<and> (\<forall>sd. sdata s key = Some sd \<and> now + Second \<le> setTime sd + expireDuration sd
        \<longrightarrow> Get key now s = (Inr (data sd), s))
 \<and> (\<forall>sd. sdata s key = Some sd \<and> \<not> isPersistence sd
          \<and> setTime sd + expireDuration sd \<le> now
        \<longrightarrow> fst (Get key now s) = Inl ErrCacheKeyNotFound)"
proof (intro conjI allI impI)
  assume "sdata s key = None"
  then show "Get key now s = (Inl ErrCacheKeyNotFound, s)" by (rule Get_absent)
next
  fix sd
  assume "sdata s key = Some sd
          \<and> (isPersistence sd \<or> Unix now < Unix (Add (setTime sd) (expireDuration sd)))"
  then show "Get key now s = (Inr (data sd), s)" by (simp add: Get_live)
next
  fix sd
  assume a: "sdata s key = Some sd \<and> \<not> isPersistence sd
          \<and> Unix (Add (setTime sd) (expireDuration sd)) \<le> Unix now"
  then have "Get key now s = (Inl ErrCacheKeyNotFound, Delete key s)"
    by (simp add: Get_expired)
  with a show "Get key now s =
              (Inl ErrCacheKeyNotFound,
               s\<lparr>sdata := (sdata s)(key := None),
                 world := (case hooks s DeleteOperation of
                             Some hs \<Rightarrow> fold (\<lambda>h. h key (data sd)) hs (world s)
                           | None \<Rightarrow> world s)\<rparr>)"
    by (simp add: Delete_present)
next
  show "(\<exists>v. fst (Get key now s) = Inr v) \<longleftrightarrow>
      (\<exists>sd. sdata s key = Some sd
          \<and> (isPersistence sd \<or> Unix now < Unix (Add (setTime sd) (expireDuration sd))))"
  proof (cases "sdata s key")
    case None
    then show ?thesis by (simp add: Get_absent)
  next
    case (Some sd)
    show ?thesis
    proof (cases "isPersistence sd \<or> Unix now < Unix (Add (setTime sd) (expireDuration sd))")
      case True
      with Some show ?thesis by (simp add: Get_live)
    next
      case False
      with Some have "Get key now s = (Inl ErrCacheKeyNotFound, Delete key s)"
        by (simp add: Get_expired)
      with Some False show ?thesis by simp
    qed
  qed
next
  fix sd
  assume a: "sdata s key = Some sd \<and> now + Second \<le> setTime sd + expireDuration sd"
  then have "Unix now < Unix (Add (setTime sd) (expireDuration sd))"
    unfolding Add_def by (simp add: Unix_full_second)
  with a show "Get key now s = (Inr (data sd), s)" by (simp add: Get_live)
next
  fix sd
  assume a: "sdata s key = Some sd \<and> \<not> isPersistence sd
          \<and> setTime sd + expireDuration sd \<le> now"
  then have "Unix (Add (setTime sd) (expireDuration sd)) \<le> Unix now"
    unfolding Add_def by (simp add: Unix_mono)
  with a show "fst (Get key now s) = Inl ErrCacheKeyNotFound" by (simp add: Get_expired)
qed

theorem Get_found_or_not_found_witness:
  "sdata example_store ''x'' = None
 \<and> Get ''x'' 0 example_store = (Inl ErrCacheKeyNotFound, example_store)
 \<and> sdata example_store ''p''
       = Some \<lparr>isPersistence = True, setTime = 0, expireDuration = 0, data = 7\<rparr>
 \<and> Get ''p'' 99000000000 example_store = (Inr 7, example_store)
 \<and> sdata example_store ''e''
       = Some \<lparr>isPersistence = False, setTime = 0, expireDuration = Second, data = 5\<rparr>
 \<and> Unix 999999999 < Unix (Add 0 Second)
 \<and> Get ''e'' 999999999 example_store = (Inr 5, example_store)
 \<and> (0::int) + Second \<le> 0 + Second
 \<and> Get ''e'' 0 example_store = (Inr 5, example_store)
 \<and> Unix (Add 0 Second) \<le> Unix 1000000000
 \<and> (0::int) + Second \<le> 1000000000
 \<and> fst (Get ''e'' 1000000000 example_store) = Inl ErrCacheKeyNotFound
 \<and> sdata (snd (Get ''e'' 1000000000 example_store)) ''e'' = None
 \<and> world (snd (Get ''e'' 1000000000 example_store))
       = world example_store @ [(1, ''e'', 5)]"
  using Get_found_or_not_found [of example_store "''x''" 0]
    Get_found_or_not_found [of example_store "''p''" 99000000000]
    Get_found_or_not_found [of example_store "''e''" 999999999]
    Get_found_or_not_found [of example_store "''e''" 0]
    Get_found_or_not_found [of example_store "''e''" 1000000000]
  by (simp add: evaluate example_store_def)

subsection \<open>The expiry boundary\<close>

lemma Get_SetEx:
  "Get k now' (SetEx k v d now s) =
     (if Unix (Add now d) \<le> Unix now'
      then (Inl ErrCacheKeyNotFound, Delete k (SetEx k v d now s))
      else (Inr v, SetEx k v d now s))"
  by (simp add: Get_def sdata_SetEx removeIfExpired_eq)

text \<open>
  Claim C3, as stated, fails: the claim promises the value at every instant strictly
  before \<open>d\<close> has elapsed since the write. An entry written at 0.5 s with one second to
  live is read at 1.4 s, when 0.9 s have elapsed, and is reported not found: the test
  compares whole Unix seconds, and both \<open>0.5 s + 1 s\<close> and \<open>1.4 s\<close> lie in second 1.
\<close>

theorem SetEx_Get_before_expiry_counterexample:
  "(0::int) < Second
 \<and> (500000000::int) \<le> 1400000000
 \<and> (1400000000::int) - 500000000 < Second
 \<and> fst (Get ''k'' 1400000000 (SetEx ''k'' (7::nat) Second 500000000 (NewCache ())))
       = Inl ErrCacheKeyNotFound"
  by (simp add: Get_SetEx Unix_def Add_def Second_def)

text \<open>
  Claim C3, amended. For every key \<open>k\<close>, value \<open>v\<close> and positive duration \<open>d\<close>, after
  \<^verbatim>\<open>SetEx(k, v, d)\<close> at instant \<open>now\<close>, a \<^verbatim>\<open>Get(k)\<close> at instant \<open>now'\<close> returns \<open>v\<close> with no
  error when the Unix second of \<open>now'\<close> is before the Unix second of \<open>now + d\<close>, which
  holds whenever at least one full second is left before \<open>now + d\<close>; and it returns not
  found once \<open>d\<close> has elapsed, that is when \<open>now + d \<le> now'\<close>.
\<close>

theorem SetEx_Get_expiry_boundary:
  assumes "0 < d"
  shows "(Unix now' < Unix (Add now d) \<longrightarrow>
            Get k now' (SetEx k v d now s) = (Inr v, SetEx k v d now s))
       \<and> (now' + Second \<le> now + d \<longrightarrow>
            Get k now' (SetEx k v d now s) = (Inr v, SetEx k v d now s))
       \<and> (now + d \<le> now' \<longrightarrow>
            fst (Get k now' (SetEx k v d now s)) = Inl ErrCacheKeyNotFound)"
proof (intro conjI impI)
  assume "Unix now' < Unix (Add now d)"
  then show "Get k now' (SetEx k v d now s) = (Inr v, SetEx k v d now s)"
    by (simp add: Get_SetEx)
next
  assume "now' + Second \<le> now + d"
  then have "Unix now' < Unix (Add now d)"
    unfolding Add_def by (rule Unix_full_second)
  then show "Get k now' (SetEx k v d now s) = (Inr v, SetEx k v d now s)"
    by (simp add: Get_SetEx)
next
  assume "now + d \<le> now'"
  then have "Unix (Add now d) \<le> Unix now'"
    unfolding Add_def by (rule Unix_mono)
  then show "fst (Get k now' (SetEx k v d now s)) = Inl ErrCacheKeyNotFound"
    by (simp add: Get_SetEx)
qed

theorem SetEx_Get_expiry_boundary_witness:
  "(0::int) < 2 * Second
 \<and> Unix 1999999999 < Unix (Add 500000000 (2 * Second))
 \<and> Get ''k'' 1999999999 (SetEx ''k'' (7::nat) (2 * Second) 500000000 (NewCache ()))
       = (Inr 7, SetEx ''k'' 7 (2 * Second) 500000000 (NewCache ()))
 \<and> (1400000000::int) + Second \<le> 500000000 + 2 * Second
 \<and> Get ''k'' 1400000000 (SetEx ''k'' (7::nat) (2 * Second) 500000000 (NewCache ()))
       = (Inr 7, SetEx ''k'' 7 (2 * Second) 500000000 (NewCache ()))
 \<and> (500000000::int) + 2 * Second \<le> 2500000000
 \<and> fst (Get ''k'' 2500000000 (SetEx ''k'' (7::nat) (2 * Second) 500000000 (NewCache ())))
       = Inl ErrCacheKeyNotFound"
  using SetEx_Get_expiry_boundary [of "2 * Second" 1999999999 500000000 "''k''" "7::nat" "NewCache ()"]
    SetEx_Get_expiry_boundary [of "2 * Second" 1400000000 500000000 "''k''" "7::nat" "NewCache ()"]
    SetEx_Get_expiry_boundary [of "2 * Second" 2500000000 500000000 "''k''" "7::nat" "NewCache ()"]
  by (simp add: Unix_def Add_def Second_def)

subsection \<open>Deleting\<close>

text \<open>
  Claim C5. \<^verbatim>\<open>Delete(k)\<close> on a key with no entry leaves the store, and with it the world
  of the handlers, unchanged: no handler is called. \<^verbatim>\<open>Delete(k)\<close> on a key with an entry
  removes the entry and calls the handlers stored for \<^verbatim>\<open>Delete\<close>, first to last, each
  once, with the key and the value of the removed entry; nothing else changes. With
  logging handlers the log grows by one line per stored handler.
\<close>

theorem Delete_absent_or_present:
  "(sdata s k = None \<longrightarrow> Delete k s = s)
 \<and> (\<forall>sd. sdata s k = Some sd \<longrightarrow>
        Delete k s =
          s\<lparr>sdata := (sdata s)(k := None),
            world := (case hooks s DeleteOperation of
                        Some hs \<Rightarrow> fold (\<lambda>h. h k (data sd)) hs (world s)
                      | None \<Rightarrow> world s)\<rparr>)
 \<and> (\<forall>sd ns. sdata l k = Some sd \<and> hooks l DeleteOperation = Some (map logger ns) \<longrightarrow>
        world (Delete k l) = world l @ map (\<lambda>n. (n, k, data sd)) ns)"
proof (intro conjI allI impI)
  assume "sdata s k = None"
  then show "Delete k s = s" by (rule Delete_absent)
next
  fix sd
  assume "sdata s k = Some sd"
  then show "Delete k s =
          s\<lparr>sdata := (sdata s)(k := None),
            world := (case hooks s DeleteOperation of
                        Some hs \<Rightarrow> fold (\<lambda>h. h k (data sd)) hs (world s)
                      | None \<Rightarrow> world s)\<rparr>"
    by (rule Delete_present)
next
  fix sd ns
  assume "sdata l k = Some sd \<and> hooks l DeleteOperation = Some (map logger ns)"
  then show "world (Delete k l) = world l @ map (\<lambda>n. (n, k, data sd)) ns"
    by (simp add: Delete_present fold_logger)
qed

theorem Delete_absent_or_present_witness:
  "sdata example_store ''x'' = None
 \<and> Delete ''x'' example_store = example_store
 \<and> sdata example_store ''p''
      = Some \<lparr>isPersistence = True, setTime = 0, expireDuration = 0, data = 7\<rparr>
 \<and> hooks example_store DeleteOperation = Some (map logger [1])
 \<and> sdata (Delete ''p'' example_store) ''p'' = None
 \<and> world (Delete ''p'' example_store) = world example_store @ [(1, ''p'', 7)]"
  using Delete_absent_or_present [of example_store "''x''" example_store]
    Delete_absent_or_present [of example_store "''p''" example_store]
  by (simp add: evaluate example_store_def)

subsection \<open>Overwriting\<close>

lemma Set_eq:
  "Set k v now s =
     s\<lparr>sdata := (sdata s)(k \<mapsto>
          \<lparr>isPersistence = True, setTime = now, expireDuration = 0, data = v\<rparr>),
       world := (case hooks s CreateOperation of
                   Some hs \<Rightarrow> fold (\<lambda>h. h k v) hs (world s)
                 | None \<Rightarrow> world s)\<rparr>"
  by (simp add: Set_def processHooks_eq split: option.split)

lemma SetEx_eq:
  "SetEx k v d now s =
     s\<lparr>sdata := (sdata s)(k \<mapsto>
          \<lparr>isPersistence = False, setTime = now, expireDuration = d, data = v\<rparr>),
       world := (case hooks s CreateOperation of
                   Some hs \<Rightarrow> fold (\<lambda>h. h k v) hs (world s)
                 | None \<Rightarrow> world s)\<rparr>"
  by (simp add: SetEx_def processHooks_eq split: option.split)

text \<open>
  Claim C7. On a key that has an entry, \<^verbatim>\<open>Set\<close> and \<^verbatim>\<open>SetEx\<close> put a whole new entry in
  its place (value, persistence flag, write time and duration; nothing of the old entry
  is kept), a following \<^verbatim>\<open>Get\<close> is decided by the new entry alone, and the handlers
  stored for \<^verbatim>\<open>Create\<close> are called first to last, each once per write, with the key and
  the new value.
\<close>

theorem overwrite_replaces_entry:
  assumes "sdata s k = Some old"
  shows "Set k v now s =
           s\<lparr>sdata := (sdata s)(k \<mapsto>
                \<lparr>isPersistence = True, setTime = now, expireDuration = 0, data = v\<rparr>),
             world := (case hooks s CreateOperation of
                         Some hs \<Rightarrow> fold (\<lambda>h. h k v) hs (world s)
                       | None \<Rightarrow> world s)\<rparr>
       \<and> SetEx k v d now s =
           s\<lparr>sdata := (sdata s)(k \<mapsto>
                \<lparr>isPersistence = False, setTime = now, expireDuration = d, data = v\<rparr>),
             world := (case hooks s CreateOperation of
                         Some hs \<Rightarrow> fold (\<lambda>h. h k v) hs (world s)
                       | None \<Rightarrow> world s)\<rparr>
       \<and> fst (Get k now' (Set k v now s)) = Inr v
       \<and> fst (Get k now' (SetEx k v d now s)) =
           (if Unix (Add now d) \<le> Unix now' then Inl ErrCacheKeyNotFound else Inr v)
       \<and> (\<forall>old' ns. sdata l k = Some old' \<and> hooks l CreateOperation = Some (map logger ns) \<longrightarrow>
             world (Set k v now l) = world l @ map (\<lambda>n. (n, k, v)) ns
           \<and> world (SetEx k v d now l) = world l @ map (\<lambda>n. (n, k, v)) ns)"
proof (intro conjI allI impI)
  show "fst (Get k now' (Set k v now s)) = Inr v"
    by (simp add: Get_def sdata_Set removeIfExpired_eq)
  show "fst (Get k now' (SetEx k v d now s)) =
           (if Unix (Add now d) \<le> Unix now' then Inl ErrCacheKeyNotFound else Inr v)"
    by (simp add: Get_SetEx)
next
  fix old' ns
  assume h: "sdata l k = Some old' \<and> hooks l CreateOperation = Some (map logger ns)"
  show "world (Set k v now l) = world l @ map (\<lambda>n. (n, k, v)) ns"
    using h by (simp add: Set_eq fold_logger)
  show "world (SetEx k v d now l) = world l @ map (\<lambda>n. (n, k, v)) ns"
    using h by (simp add: SetEx_eq fold_logger)
qed (rule Set_eq SetEx_eq)+

theorem overwrite_replaces_entry_witness:
  "sdata example_store ''e''
      = Some \<lparr>isPersistence = False, setTime = 0, expireDuration = Second, data = 5\<rparr>
 \<and> sdata (Set ''e'' 9 3000000000 example_store) ''e''
      = Some \<lparr>isPersistence = True, setTime = 3000000000, expireDuration = 0, data = 9\<rparr>
 \<and> sdata (SetEx ''e'' 9 (2 * Second) 3000000000 example_store) ''e''
      = Some \<lparr>isPersistence = False, setTime = 3000000000, expireDuration = 2 * Second,
               data = 9\<rparr>
 \<and> fst (Get ''e'' 4000000000 (Set ''e'' 9 3000000000 example_store)) = Inr 9
 \<and> fst (Get ''e'' 4000000000 (SetEx ''e'' 9 (2 * Second) 3000000000 example_store)) = Inr 9
 \<and> fst (Get ''e'' 5000000000 (SetEx ''e'' 9 (2 * Second) 3000000000 example_store))
      = Inl ErrCacheKeyNotFound
 \<and> hooks example_store CreateOperation = Some (map logger [2])
 \<and> world (Set ''e'' 9 3000000000 example_store) = world example_store @ [(2, ''e'', 9)]
 \<and> world (SetEx ''e'' 9 (2 * Second) 3000000000 example_store)
      = world example_store @ [(2, ''e'', 9)]"
  using overwrite_replaces_entry [of example_store "''e''" _ 9 3000000000 "2 * Second" 4000000000
      example_store]
    overwrite_replaces_entry [of example_store "''e''" _ 9 3000000000 "2 * Second" 5000000000
      example_store]
  by (simp add: evaluate example_store_def)

subsection \<open>The expiry test\<close>

text \<open>
  Claim C8. The expiry test works on whole Unix seconds with a non-strict comparison:
  \<^verbatim>\<open>removeIfExpired\<close> reports an entry expired exactly when the entry is not persistent
  and \<open>setTime + expireDuration\<close>, rounded down to seconds, is at most the clock rounded
  down to seconds. So an entry reported expired is less than one second short of its
  exact expiry instant (and the example shows 999999999 ns short), an entry whose exact
  expiry instant has come is always reported expired, and an entry with duration 0 is
  expired at the next check, the clock not running backwards.
\<close>

theorem expiry_test_whole_seconds:
  "(fst (removeIfExpired key sd now s) \<longleftrightarrow>
      \<not> isPersistence sd
      \<and> (setTime sd + expireDuration sd) div 1000000000 \<le> now div 1000000000)
 \<and> (fst (removeIfExpired key sd now s) \<longrightarrow> setTime sd + expireDuration sd - now < Second)
 \<and> (\<not> isPersistence sd \<and> setTime sd + expireDuration sd \<le> now \<longrightarrow>
        fst (removeIfExpired key sd now s))
 \<and> (\<not> isPersistence sd \<and> expireDuration sd = 0 \<and> setTime sd \<le> now \<longrightarrow>
        fst (removeIfExpired key sd now s))
 \<and> (now \<le> now' \<longrightarrow> fst (Get k now' (SetEx k v 0 now s')) = Inl ErrCacheKeyNotFound)"
proof (intro conjI impI)
  show "fst (removeIfExpired key sd now s) \<longleftrightarrow>
      \<not> isPersistence sd
      \<and> (setTime sd + expireDuration sd) div 1000000000 \<le> now div 1000000000"
    by (simp add: removeIfExpired_eq Unix_def Add_def)
next
  assume "fst (removeIfExpired key sd now s)"
  then have "Unix (setTime sd + expireDuration sd) \<le> Unix now"
    by (simp add: removeIfExpired_eq Add_def split: if_splits)
  then show "setTime sd + expireDuration sd - now < Second"
    by (rule Unix_early_bound)
next
  assume "\<not> isPersistence sd \<and> setTime sd + expireDuration sd \<le> now"
  then show "fst (removeIfExpired key sd now s)"
    by (simp add: removeIfExpired_eq Add_def Unix_mono)
next
  assume "\<not> isPersistence sd \<and> expireDuration sd = 0 \<and> setTime sd \<le> now"
  then show "fst (removeIfExpired key sd now s)"
    by (simp add: removeIfExpired_eq Add_def Unix_mono)
next
  assume "now \<le> now'"
  then show "fst (Get k now' (SetEx k v 0 now s')) = Inl ErrCacheKeyNotFound"
    by (simp add: Get_SetEx Add_def Unix_mono)
qed

theorem expiry_test_whole_seconds_witness:
  "fst (removeIfExpired ''e''
         \<lparr>isPersistence = False, setTime = 0, expireDuration = 1999999999, data = 5\<rparr>
         1000000000 example_store)
 \<and> (0::int) + 1999999999 - 1000000000 = 999999999
 \<and> (0 + 1999999999 - 1000000000 < Second)
 \<and> fst (removeIfExpired ''e''
         \<lparr>isPersistence = False, setTime = 0, expireDuration = Second, data = 5\<rparr>
         1000000000 example_store)
 \<and> \<not> fst (removeIfExpired ''e''
         \<lparr>isPersistence = False, setTime = 0, expireDuration = Second, data = 5\<rparr>
         999999999 example_store)
 \<and> fst (removeIfExpired ''e''
         \<lparr>isPersistence = False, setTime = 1500000000, expireDuration = 0, data = 5\<rparr>
         1500000000 example_store)
 \<and> (1500000000::int) \<le> 1500000000
 \<and> fst (Get ''z'' 1500000000 (SetEx ''z'' 4 0 1500000000 example_store))
       = Inl ErrCacheKeyNotFound"
  using expiry_test_whole_seconds [of "''e''"
      "\<lparr>isPersistence = False, setTime = 0, expireDuration = 1999999999, data = 5\<rparr>"
      1000000000 example_store 1000000000 "''z''" 4 example_store]
    expiry_test_whole_seconds [of "''e''"
      "\<lparr>isPersistence = False, setTime = 0, expireDuration = Second, data = 5\<rparr>"
      1000000000 example_store 1000000000 "''z''" 4 example_store]
    expiry_test_whole_seconds [of "''e''"
      "\<lparr>isPersistence = False, setTime = 0, expireDuration = Second, data = 5\<rparr>"
      999999999 example_store 999999999 "''z''" 4 example_store]
    expiry_test_whole_seconds [of "''e''"
      "\<lparr>isPersistence = False, setTime = 1500000000, expireDuration = 0, data = 5\<rparr>"
      1500000000 example_store 1500000000 "''z''" 4 example_store]
  by (simp add: Second_def)

subsection \<open>Persistent entries\<close>

text \<open>
  When the copy handed to \<^verbatim>\<open>removeIfExpired\<close> is the entry the store holds for the key, an
  entry written by \<^verbatim>\<open>Set\<close> stays: an uninterrupted \<^verbatim>\<open>Get\<close> and an uninterrupted pass of the
  sweep keep every persistent entry.
\<close>

lemma removeIfExpired_keeps_persistent:
  assumes "sdata s k = Some sd" and "isPersistence sd" and "sdata s key = Some sd'"
  shows "sdata (snd (removeIfExpired key sd' now s)) k = Some sd"
proof (cases "key = k")
  case True
  with assms have "sd' = sd" by simp
  with assms show ?thesis by (simp add: removeIfExpired_def)
next
  case False
  with assms show ?thesis by (simp add: removeIfExpired_eq sdata_Delete)
qed

lemma sweep_keeps_persistent:
  "sdata s k = Some sd \<Longrightarrow> isPersistence sd \<Longrightarrow> sdata (sweep visits s) k = Some sd"
proof (induction visits arbitrary: s)
  case Nil
  then show ?case by simp
next
  case (Cons visit rest)
  obtain key now where visit: "visit = (key, now)" by (cases visit)
  show ?case
  proof (cases "sdata s key")
    case None
    with Cons visit show ?thesis by simp
  next
    case (Some sd')
    from Cons.prems Some
    have "sdata (snd (removeIfExpired key sd' now s)) k = Some sd"
      by (simp add: removeIfExpired_keeps_persistent)
    then have "sdata (sweep rest (snd (removeIfExpired key sd' now s))) k = Some sd"
      using Cons.prems(2) by (rule Cons.IH)
    with Some visit show ?thesis by simp
  qed
qed

lemma Get_keeps_persistent:
  assumes "sdata s k = Some sd" and "isPersistence sd"
  shows "sdata (snd (Get key now s)) k = Some sd"
proof (cases "sdata s key")
  case None
  with assms show ?thesis by (simp add: Get_absent)
next
  case (Some sd')
  have "snd (Get key now s) = snd (removeIfExpired key sd' now s)"
    using Some by (simp add: Get_def split: prod.split bool.split)
  with assms Some show ?thesis by (simp add: removeIfExpired_keeps_persistent)
qed

text \<open>
  Claim C6 says that an entry written by \<^verbatim>\<open>Set(k, v)\<close> is never removed by \<^verbatim>\<open>Get(k)\<close> or by
  the sweep. The code at a schedule it admits, since \<^verbatim>\<open>Set\<close> takes no lock: the store holds
  for \<open>e\<close> an entry written at instant 0 with one second to live. At 2 s the \<^verbatim>\<open>range\<close> of
  the sweep (or line 94 of \<^verbatim>\<open>Get\<close>) has read that entry into its copy. Another goroutine
  now runs \<^verbatim>\<open>Set("e", 3)\<close>. The sweep (or \<^verbatim>\<open>Get\<close>) goes on and calls \<^verbatim>\<open>removeIfExpired\<close> with
  its copy: the copy is expired, and \<^verbatim>\<open>Delete\<close> removes by key the persistent entry that
  \<^verbatim>\<open>Set\<close> wrote and calls the handler stored for \<^verbatim>\<open>Delete\<close> with the value 3. A later
  \<^verbatim>\<open>Get("e")\<close> finds nothing.
\<close>

theorem stale_copy_removes_Set_entry:
  "sdata example_store ''e''
     = Some \<lparr>isPersistence = False, setTime = 0, expireDuration = Second, data = 5\<rparr>
 \<and> sdata (Set ''e'' 3 2000000000 example_store) ''e''
     = Some \<lparr>isPersistence = True, setTime = 2000000000, expireDuration = 0, data = 3\<rparr>
 \<and> fst (removeIfExpired ''e''
           \<lparr>isPersistence = False, setTime = 0, expireDuration = Second, data = 5\<rparr>
           2000000000 (Set ''e'' 3 2000000000 example_store))
 \<and> sdata (snd (removeIfExpired ''e''
           \<lparr>isPersistence = False, setTime = 0, expireDuration = Second, data = 5\<rparr>
           2000000000 (Set ''e'' 3 2000000000 example_store))) ''e''
     = None
 \<and> world (snd (removeIfExpired ''e''
           \<lparr>isPersistence = False, setTime = 0, expireDuration = Second, data = 5\<rparr>
           2000000000 (Set ''e'' 3 2000000000 example_store)))
     = world (Set ''e'' 3 2000000000 example_store) @ [(1, ''e'', 3)]
 \<and> fst (Get ''e'' 2000000000 (snd (removeIfExpired ''e''
           \<lparr>isPersistence = False, setTime = 0, expireDuration = Second, data = 5\<rparr>
           2000000000 (Set ''e'' 3 2000000000 example_store))))
     = Inl ErrCacheKeyNotFound"
  by (simp add: evaluate example_store_def Get_def removeIfExpired_def Delete_def)

subsection \<open>Keys\<close>

text \<open>The builder loop of \<^verbatim>\<open>strings.Join\<close> puts the separator before each further element.\<close>

lemma builder_loop:
  "fold (\<lambda>s b. b @ sep @ s) es b0 = b0 @ concat (map (\<lambda>s. sep @ s) es)"
  by (induction es arbitrary: b0) simp_all

lemma joined_with_Cons:
  "joined_with delim (p # ps) = p @ concat (map (\<lambda>s. delim @ s) ps)"
  by (induction ps arbitrary: p) simp_all

lemma Join_joined_with: "Join parts delim = joined_with delim parts"
proof (cases parts)
  case Nil
  then show ?thesis by simp
next
  case (Cons p ps)
  show ?thesis
  proof (cases ps)
    case Nil
    with Cons show ?thesis by simp
  next
    case (Cons q qs)
    with \<open>parts = p # ps\<close> show ?thesis
      by (simp add: builder_loop joined_with_Cons)
  qed
qed

text \<open>
  Claim C10. \<^verbatim>\<open>CreateKey(parts...)\<close> is the parts joined with \<open>:\<close> and
  \<^verbatim>\<open>CreateKeyWithDelimiter(delim, parts...)\<close> the parts joined with \<open>delim\<close>; both leave the
  store as it is, and the key does not depend on the store. \<^verbatim>\<open>CreateKey("a", "b")\<close> is
  \<open>a:b\<close> and \<^verbatim>\<open>CreateKeyWithDelimiter("-", "a", "b")\<close> is \<open>a-b\<close>.
\<close>

theorem CreateKey_joins_parts:
  "CreateKey parts s = (joined_with '':'' parts, s)
 \<and> CreateKeyWithDelimiter delim parts s = (joined_with delim parts, s)
 \<and> fst (CreateKey parts s) = fst (CreateKey parts s')
 \<and> fst (CreateKeyWithDelimiter delim parts s) = fst (CreateKeyWithDelimiter delim parts s')
 \<and> fst (CreateKey [''a'', ''b''] s) = ''a:b''
 \<and> fst (CreateKeyWithDelimiter ''-'' [''a'', ''b''] s) = ''a-b''"
  by (simp add: CreateKey_def CreateKeyWithDelimiter_def defaultDelimiter_def Join_joined_with)

subsection \<open>Registering handlers\<close>

text \<open>
  \<^verbatim>\<open>SetHook\<close> on a kind that has an entry in \<^verbatim>\<open>s.hooks\<close> changes nothing; on a kind without
  one it stores the given handlers.
\<close>

lemma SetHook_registered: "hooks s op = Some hs \<Longrightarrow> SetHook op new s = s"
  by (simp add: SetHook_def)

lemma SetHook_unregistered:
  "hooks s op = None \<Longrightarrow> SetHook op new s = s\<lparr>hooks := (hooks s)(op \<mapsto> new)\<rparr>"
  by (simp add: SetHook_def)

text \<open>
  Claim C1 says that \<^verbatim>\<open>SetHook\<close> on a kind with registered handlers appends the new
  handlers, so that a later \<^verbatim>\<open>Set\<close> or \<^verbatim>\<open>Delete\<close> calls the old and the new ones in order.
  The code at the claim's input: after \<^verbatim>\<open>SetHook(kind, h1)\<close> and \<^verbatim>\<open>SetHook(kind, h2)\<close> the
  registry holds \<open>h1\<close> alone, and a \<^verbatim>\<open>Set\<close> (for kind \<^verbatim>\<open>Create\<close>) or a \<^verbatim>\<open>Delete\<close> (for kind
  \<^verbatim>\<open>Delete\<close>) calls \<open>h1\<close> alone.
\<close>

theorem SetHook_second_registration_lost:
  "hooks (SetHook CreateOperation [logger 2] (SetHook CreateOperation [logger 1]
            (NewCache [] :: (nat, (nat \<times> string \<times> nat) list) storage))) CreateOperation
     = Some [logger 1]
 \<and> world (Set ''k'' 7 0 (SetHook CreateOperation [logger 2] (SetHook CreateOperation [logger 1]
            (NewCache [] :: (nat, (nat \<times> string \<times> nat) list) storage))))
     = [(1, ''k'', 7)]
 \<and> world (Delete ''k'' (Set ''k'' 7 0 (SetHook DeleteOperation [logger 2]
            (SetHook DeleteOperation [logger 1]
            (NewCache [] :: (nat, (nat \<times> string \<times> nat) list) storage)))))
     = [(1, ''k'', 7)]"
  by (simp add: evaluate Delete_def)

subsection \<open>Stopping the sweeper\<close>

text \<open>No call of \<^verbatim>\<open>StopCleanup\<close> that follows a completed one returns.\<close>

lemma StopCleanup_twice: "StopCleanup s = Some s' \<Longrightarrow> StopCleanup s' = None"
  by (auto simp: StopCleanup_def cleanupRound_def split: sweeper_state.splits)

text \<open>
  Claim C9 says that \<^verbatim>\<open>StopCleanup\<close> may be called more than once, or on a store whose
  sweeper has stopped, without deadlock. The code at the claim's input: on a new cache
  the first call returns, with the sweeping goroutine gone; the second call on that
  store never returns.
\<close>

theorem StopCleanup_second_call_never_returns:
  "StopCleanup (NewCache () :: (nat, unit) storage)
     = Some ((NewCache ()) \<lparr>sweeper := Returned\<rparr>)
 \<and> StopCleanup ((NewCache () :: (nat, unit) storage) \<lparr>sweeper := Returned\<rparr>) = None"
  by (simp add: StopCleanup_def cleanupRound_def NewCache_def NewCacheWithCleanup_def)

end
